theory Spec2Isabelle
  imports Main "HOL-Library.Sublist"
begin

section \<open>Constants of \<^verbatim>\<open>scrape_p2p_docs.py\<close>\<close>

definition BASE_URL :: string where
  "BASE_URL = ''https://docs.p2p.org/''"

definition INITIAL_URL :: string where
  "INITIAL_URL = ''https://docs.p2p.org/llms.txt''"

definition OUTPUT_FILE :: string where
  "OUTPUT_FILE = ''p2p_aggregated_docs.md''"

definition MAX_RETRIES :: int where
  "MAX_RETRIES = 3"

definition RETRY_DELAY_BASE :: int where
  "RETRY_DELAY_BASE = 2"

section \<open>The fetcher: \<^verbatim>\<open>fetch_url\<close>\<close>

text \<open>
  What one call of \<^verbatim>\<open>requests.get\<close> can do: answer with a status code and a body, or
  raise. \<^verbatim>\<open>fetch_url\<close> has handlers for \<^verbatim>\<open>requests.Timeout\<close>,
  \<^verbatim>\<open>requests.ConnectionError\<close> and \<^verbatim>\<open>requests.RequestException\<close>; any other
  exception leaves the function.
\<close>

datatype response =
    Status int string
  | Timeout
  | ConnectionError
  | RequestException
  | OtherException

text \<open>
  The effects of a fetch, in program order: a request (with the 0-based attempt index) and
  a call of \<^verbatim>\<open>time.sleep\<close>. \<open>Sleep a\<close> is the sleep of the delay computed at attempt
  \<open>a\<close>, that is of \<^verbatim>\<open>RETRY_DELAY_BASE ** a + random.uniform(0, 1)\<close> seconds. The delay
  is a Python float made from a random float; its value is not part of the model, which
  records that the sleep happens and at which attempt. Computing the delay and sleeping
  are taken to succeed.
\<close>

datatype event = Get int | Sleep int

text \<open>A call either returns a value or lets an exception escape.\<close>

datatype 'a outcome = Returned 'a | Raised

text \<open>
  The loop \<^verbatim>\<open>for attempt in range(retries + 1)\<close>. The server is the function \<open>resp\<close>
  from the attempt index to what the request of that attempt does; \<open>tr\<close> is the trace of
  effects so far. Python's integers are unbounded, so \<open>retries\<close> and \<open>attempt\<close> are
  \<open>int\<close>; a negative \<open>retries\<close> gives an empty range.
\<close>

function fetch_loop ::
  "(int \<Rightarrow> response) \<Rightarrow> int \<Rightarrow> int \<Rightarrow> event list \<Rightarrow> string option outcome \<times> event list"
where
  "fetch_loop resp retries attempt tr =
     (if attempt < retries + 1 then
        (case resp attempt of
           Status code body \<Rightarrow>
             if code = 200 then (Returned (Some body), tr @ [Get attempt])
             else if code = 404 then (Returned None, tr @ [Get attempt])
             else if attempt < retries
               then fetch_loop resp retries (attempt + 1) (tr @ [Get attempt, Sleep attempt])
               else fetch_loop resp retries (attempt + 1) (tr @ [Get attempt])
         | OtherException \<Rightarrow> (Raised, tr @ [Get attempt])
         | _ \<Rightarrow>
             if attempt < retries
               then fetch_loop resp retries (attempt + 1) (tr @ [Get attempt, Sleep attempt])
               else fetch_loop resp retries (attempt + 1) (tr @ [Get attempt]))
      else (Returned None, tr))"
  by pat_completeness auto
termination
  by (relation "measure (\<lambda>(resp, retries, attempt, tr). nat (retries + 1 - attempt))") auto

definition fetch_url :: "(int \<Rightarrow> response) \<Rightarrow> int \<Rightarrow> string option outcome \<times> event list" where
  "fetch_url resp retries = fetch_loop resp retries 0 []"


fun not_found :: "response \<Rightarrow> bool" where
  "not_found (Status code body) = (code = 404)"
| "not_found _ = False"





section \<open>The link extractor: \<^verbatim>\<open>extract_md_links\<close>\<close>

text \<open>
  \<^verbatim>\<open>re.findall(r'\[.*?\]\((.*?\.md)\)', text_content)\<close>, written out for this pattern.
  No flag is given, so \<^verbatim>\<open>.\<close> matches every character but the newline.
\<close>

definition dot :: "char \<Rightarrow> bool" where
  "dot c = (c \<noteq> CHR 0x0A)"

text \<open>
  The group \<^verbatim>\<open>(.*?\.md)\<close> followed by \<^verbatim>\<open>\)\<close>, matched at the head of the input: the
  lazy \<^verbatim>\<open>.*?\<close> takes as few characters as possible, so the first position where
  \<^verbatim>\<open>.md)\<close> follows ends the group. The result is the captured group and the input
  left after the closing parenthesis.
\<close>

fun match_target :: "string \<Rightarrow> (string \<times> string) option" where
  "match_target [] = None"
| "match_target (c # cs) =
     (if prefix ''.md)'' (c # cs) then Some (''.md'', drop 3 cs)
      else if dot c then map_option (\<lambda>(t, rest). (c # t, rest)) (match_target cs)
      else None)"

text \<open>
  \<^verbatim>\<open>.*?\]\(\<close> and the rest of the pattern, matched after an opening bracket: the lazy
  label grows by one character whenever what follows \<^verbatim>\<open>](\<close> cannot be completed
  (backtracking).
\<close>

fun match_label :: "string \<Rightarrow> (string \<times> string) option" where
  "match_label [] = None"
| "match_label (c # cs) =
     (case (if prefix '']('' (c # cs) then match_target (drop 1 cs) else None) of
        Some m \<Rightarrow> Some m
      | None \<Rightarrow> if dot c then match_label cs else None)"

fun match_at :: "string \<Rightarrow> (string \<times> string) option" where
  "match_at [] = None"
| "match_at (c # cs) = (if c = CHR ''['' then match_label cs else None)"

text \<open>
  \<^verbatim>\<open>findall\<close> scans from the left, reports the group of the leftmost match and goes on
  after the end of that match (matches do not overlap).
\<close>

function findall :: "string \<Rightarrow> string list" where
  "findall [] = []"
| "findall (c # cs) =
     (case match_at (c # cs) of
        Some (t, rest) \<Rightarrow> t # findall rest
      | None \<Rightarrow> findall cs)"
  by pat_completeness auto
termination
proof (relation "measure length")
  have target: "length rest < length s" if "match_target s = Some (t, rest)" for s t rest
    using that by (induction s arbitrary: t rest) (auto split: if_splits)
  have label: "length rest < length s" if "match_label s = Some (t, rest)" for s t rest
    using that
  proof (induction s arbitrary: t rest)
    case Nil
    then show ?case by simp
  next
    case (Cons c cs)
    show ?case
    proof (cases "if prefix ''](''  (c # cs) then match_target (drop 1 cs) else None")
      case None
      with Cons show ?thesis by (auto split: if_splits)
    next
      case (Some m)
      with Cons.prems have "match_target (drop 1 cs) = Some (t, rest)"
        by (auto split: if_splits)
      from target [OF this] show ?thesis by simp
    qed
  qed
  show "wf (measure length)" by simp
  show "(rest, c # cs) \<in> measure length"
    if "match_at (c # cs) = Some x" and "(t, rest) = x" for c cs x t rest
    using that label [of cs t rest] by (auto split: if_splits)
  show "(cs, c # cs) \<in> measure length" for c :: char and cs
    by simp
qed

text \<open>\<^verbatim>\<open>match.startswith(('http://', 'https://'))\<close>\<close>

definition is_absolute :: "string \<Rightarrow> bool" where
  "is_absolute m = (prefix ''http://'' m \<or> prefix ''https://'' m)"

text \<open>
  \<^verbatim>\<open>urllib.parse.urljoin\<close> is a library function; it is the parameter \<open>urljoin\<close>.
  \<^verbatim>\<open>not text_content\<close> holds of \<^verbatim>\<open>None\<close> and of the empty string.
\<close>

definition normalise :: "(string \<Rightarrow> string \<Rightarrow> string) \<Rightarrow> string \<Rightarrow> string" where
  "normalise urljoin m = (if is_absolute m then m else urljoin BASE_URL m)"

definition extract_md_links :: "(string \<Rightarrow> string \<Rightarrow> string) \<Rightarrow> string option \<Rightarrow> string set" where
  "extract_md_links urljoin text_content =
     (case text_content of
        None \<Rightarrow> {}
      | Some text \<Rightarrow> if text = [] then {} else normalise urljoin ` set (findall text))"


section \<open>Strings and paths\<close>

text \<open>
  Python strings are sequences of code points; here they are \<open>string\<close>s, and the case
  mappings below know the ASCII letters only (every other character has no case).
\<close>

definition lowers :: string where
  "lowers = ''abcdefghijklmnopqrstuvwxyz''"

definition uppers :: string where
  "uppers = ''ABCDEFGHIJKLMNOPQRSTUVWXYZ''"

definition is_cased :: "char \<Rightarrow> bool" where
  "is_cased c = (c \<in> set lowers \<or> c \<in> set uppers)"

definition to_upper :: "char \<Rightarrow> char" where
  "to_upper c = (case map_of (zip lowers uppers) c of Some u \<Rightarrow> u | None \<Rightarrow> c)"

definition to_lower :: "char \<Rightarrow> char" where
  "to_lower c = (case map_of (zip uppers lowers) c of Some l \<Rightarrow> l | None \<Rightarrow> c)"

text \<open>\<^verbatim>\<open>str.lower\<close>\<close>

definition lower_str :: "string \<Rightarrow> string" where
  "lower_str s = map to_lower s"

text \<open>
  \<^verbatim>\<open>str.title\<close>: a cased character is put in upper case when the character before it is
  not cased (or there is none), in lower case otherwise. \<open>prev\<close> tells whether the
  character before was cased.
\<close>

fun title_from :: "bool \<Rightarrow> string \<Rightarrow> string" where
  "title_from prev [] = []"
| "title_from prev (c # cs) =
     (if prev then to_lower c else to_upper c) # title_from (is_cased c) cs"

definition title_str :: "string \<Rightarrow> string" where
  "title_str s = title_from False s"

text \<open>
  \<^verbatim>\<open>str.replace(old, new)\<close>: the occurrences of \<open>old\<close> are replaced from the left and do
  not overlap. For an empty \<open>old\<close> Python puts \<open>new\<close> before every character and at
  the end.
\<close>

function replace_from :: "string \<Rightarrow> string \<Rightarrow> string \<Rightarrow> string" where
  "replace_from old new [] = []"
| "replace_from old new (c # cs) =
     (if old \<noteq> [] \<and> prefix old (c # cs)
      then new @ replace_from old new (drop (length old) (c # cs))
      else c # replace_from old new cs)"
  by pat_completeness auto
termination
  by (relation "measure (\<lambda>(old, new, s). length s)") auto

definition replace_str :: "string \<Rightarrow> string \<Rightarrow> string \<Rightarrow> string" where
  "replace_str old new s =
     (if old = [] then new @ concat (map (\<lambda>c. c # new) s) else replace_from old new s)"

text \<open>\<^verbatim>\<open>os.path.basename\<close> (POSIX): what follows the last slash.\<close>

definition basename :: "string \<Rightarrow> string" where
  "basename p = rev (takeWhile (\<lambda>c. c \<noteq> CHR ''/'') (rev p))"

text \<open>\<^verbatim>\<open>os.path.join\<close> (POSIX) of two components.\<close>

definition path_join :: "string \<Rightarrow> string \<Rightarrow> string" where
  "path_join a b =
     (if prefix ''/'' b then b
      else if a = [] \<or> suffix ''/'' a then a @ b
      else a @ ''/'' @ b)"

text \<open>The decimal numeral of a natural number, as an f-string prints it.\<close>

fun str_nat :: "nat \<Rightarrow> string" where
  "str_nat n =
     (if n < 10 then [''0123456789'' ! n]
      else str_nat (n div 10) @ [''0123456789'' ! (n mod 10)])"

section \<open>The download orchestrator\<close>

text \<open>The truth value of \<^verbatim>\<open>content\<close> in \<^verbatim>\<open>if content:\<close>, for \<^verbatim>\<open>None\<close> or a string.\<close>

definition truthy :: "string option \<Rightarrow> bool" where
  "truthy content = (case content of None \<Rightarrow> False | Some text \<Rightarrow> text \<noteq> [])"

text \<open>
  The network is a function from a URL and an attempt index to what that request does.
  \<^verbatim>\<open>download_md_file\<close> calls \<^verbatim>\<open>fetch_url\<close> with the default \<^verbatim>\<open>retries=MAX_RETRIES\<close>;
  an exception that escapes \<^verbatim>\<open>fetch_url\<close> escapes the task.
\<close>

definition download_md_file ::
  "(string \<Rightarrow> int \<Rightarrow> response) \<Rightarrow> string \<Rightarrow> (string \<times> string option) outcome"
where
  "download_md_file net url =
     (case fst (fetch_url (net url) MAX_RETRIES) of
        Raised \<Rightarrow> Raised
      | Returned content \<Rightarrow>
          if truthy content then Returned (url, content) else Returned (url, None))"

text \<open>
  What \<^verbatim>\<open>main\<close> collects while the downloads complete: the list \<^verbatim>\<open>results\<close>, the list
  \<^verbatim>\<open>failed_urls\<close>, and the files written (path and content, in the order of writing).
\<close>

record downloads =
  results :: "(string \<times> string) list"
  failed_urls :: "string list"
  files :: "(string \<times> string) list"

definition md_files_dir :: string where
  "md_files_dir = ''markdown_files''"

text \<open>
  The body of \<^verbatim>\<open>for future in as_completed(future_to_url)\<close> for the future of \<open>url0\<close>
  (the loop is written twice in the source, with and without the progress bar; the two
  bodies collect the same). \<^verbatim>\<open>future.result()\<close> re-raises what the task raised.
  Opening or writing the individual file may raise too: \<open>write_fails\<close> tells for which
  paths. Either exception is caught by \<^verbatim>\<open>except Exception\<close>, which appends the URL to
  \<^verbatim>\<open>failed_urls\<close>.
\<close>

definition handle_completed ::
  "(string \<Rightarrow> int \<Rightarrow> response) \<Rightarrow> (string \<Rightarrow> bool) \<Rightarrow> downloads \<Rightarrow> string \<Rightarrow> downloads"
where
  "handle_completed net write_fails d url0 =
     (case download_md_file net url0 of
        Raised \<Rightarrow> d\<lparr>failed_urls := failed_urls d @ [url0]\<rparr>
      | Returned (url, content) \<Rightarrow>
          if truthy content then
            (let d1 = d\<lparr>results := results d @ [(url, the content)]\<rparr>;
                 filename = basename url;
                 filepath = path_join md_files_dir filename
             in if write_fails filepath
                then d1\<lparr>failed_urls := failed_urls d1 @ [url]\<rparr>
                else d1\<lparr>files := files d1 @ [(filepath, the content)]\<rparr>)
          else d\<lparr>failed_urls := failed_urls d @ [url]\<rparr>)"

text \<open>
  The whole loop. \<open>order\<close> is the order in which \<^verbatim>\<open>as_completed\<close> yields the futures of
  the submitted URLs; only the main thread appends to the lists.
\<close>

definition download_all ::
  "(string \<Rightarrow> int \<Rightarrow> response) \<Rightarrow> (string \<Rightarrow> bool) \<Rightarrow> string list \<Rightarrow> downloads"
where
  "download_all net write_fails order =
     foldl (handle_completed net write_fails)
       \<lparr>results = [], failed_urls = [], files = []\<rparr> order"

section \<open>The aggregator\<close>

definition title_of :: "string \<Rightarrow> string" where
  "title_of url =
     title_str (replace_str ''-'' '' '' (replace_str ''.md'' [] (basename url)))"

definition anchor_of :: "string \<Rightarrow> string" where
  "anchor_of title = replace_str '' '' ''-'' (lower_str title)"

definition toc_line :: "nat \<times> string \<times> string \<Rightarrow> string" where
  "toc_line e =
     (case e of (i, url, content) \<Rightarrow>
        str_nat i @ ''. ['' @ title_of url @ ''](#'' @ anchor_of (title_of url) @ '')\<newline>'')"

definition section_of :: "string \<times> string \<Rightarrow> string" where
  "section_of r =
     (case r of (url, content) \<Rightarrow>
        ''## '' @ title_of url @ ''\<newline>\<newline>'' @
        ''*Source: ['' @ url @ '']('' @ url @ '')*\<newline>\<newline>'' @
        content @
        ''\<newline>\<newline>---\<newline>\<newline>'')"

text \<open>
  The text written to \<^verbatim>\<open>OUTPUT_FILE\<close>, the writes of the \<^verbatim>\<open>with\<close> block in their
  order. \<open>now\<close> is what \<^verbatim>\<open>time.strftime\<close> returns.
\<close>

definition aggregate :: "(string \<times> string) list \<Rightarrow> string \<Rightarrow> string" where
  "aggregate rs now =
     ''# P2P.org Aggregated Documentation\<newline>\<newline>'' @
     ''*This file contains aggregated documentation from '' @ str_nat (length rs) @
       '' markdown files.*\<newline>\<newline>'' @
     ''*Generated on: '' @ now @ ''*\<newline>\<newline>'' @
     ''## Table of Contents\<newline>\<newline>'' @
     concat (map toc_line (enumerate 1 rs)) @
     ''\<newline>---\<newline>\<newline>'' @
     concat (map section_of rs)"

text \<open>The text of \<^verbatim>\<open>failed_urls.txt\<close>: every failed URL followed by a newline.\<close>

definition manifest :: "string list \<Rightarrow> string" where
  "manifest urls = concat (map (\<lambda>url. url @ ''\<newline>'') urls)"

definition MANIFEST_FILE :: string where
  "MANIFEST_FILE = ''failed_urls.txt''"

section \<open>The run driver: \<^verbatim>\<open>main\<close>\<close>

datatype level = WARNING | ERROR

datatype run_state = AbortedNoSeed | AbortedNoLinks | Done | Crashed

text \<open>
  What a run of \<^verbatim>\<open>main\<close> leaves behind: how it ended, the record it logged when it
  returned early, the URLs submitted to the executor, and what the download loop
  collected together with every file written.
\<close>

record run = downloads +
  state :: run_state
  exit_report :: "(level \<times> string) option"
  submitted :: "string set"

definition early_exit :: "run_state \<Rightarrow> (level \<times> string) option \<Rightarrow> run" where
  "early_exit s r =
     \<lparr>results = [], failed_urls = [], files = [],
      state = s, exit_report = r, submitted = {}\<rparr>"

text \<open>
  \<open>completed\<close> gives the order in which the futures of a set of URLs complete (a list
  of the URLs of the set, each once; the order depends on the network). Writing
  the aggregate and the manifest happens outside every handler of \<^verbatim>\<open>main\<close>; these two
  writes are taken to succeed. An exception that escapes the seed fetch ends \<^verbatim>\<open>main\<close>
  (state \<open>Crashed\<close>).
\<close>

definition main ::
  "(string \<Rightarrow> int \<Rightarrow> response) \<Rightarrow> (string \<Rightarrow> string \<Rightarrow> string) \<Rightarrow> (string \<Rightarrow> bool) \<Rightarrow>
     (string set \<Rightarrow> string list) \<Rightarrow> string \<Rightarrow> run"
where
  "main net urljoin write_fails completed now =
     (case fst (fetch_url (net INITIAL_URL) MAX_RETRIES) of
        Raised \<Rightarrow> early_exit Crashed None
      | Returned main_content \<Rightarrow>
          if \<not> truthy main_content
          then early_exit AbortedNoSeed
                 (Some (ERROR, ''Failed to fetch the main file. Exiting.''))
          else
            (let md_links = extract_md_links urljoin main_content in
             if md_links = {}
             then early_exit AbortedNoLinks
                    (Some (WARNING, ''No markdown links found. Exiting.''))
             else
               (let d = download_all net write_fails (completed md_links);
                    out = files d @ [(OUTPUT_FILE, aggregate (results d) now)]
                in \<lparr>results = results d, failed_urls = failed_urls d,
                    files = (if failed_urls d \<noteq> []
                             then out @ [(MANIFEST_FILE, manifest (failed_urls d))]
                             else out),
                    state = Done, exit_report = None, submitted = md_links\<rparr>)))"


section \<open>Auxiliary notions for the statements\<close>

text \<open>The path of the individual file of a URL, as the loop body computes it.\<close>

definition filepath_of :: "string \<Rightarrow> string" where
  "filepath_of url = path_join md_files_dir (basename url)"

text \<open>
  The content the download loop gets for a URL: the text the task returned when there is
  one and it is not empty, \<open>None\<close> when the task raised, returned \<^verbatim>\<open>None\<close> or returned
  an empty text.
\<close>

definition fetched :: "(string \<Rightarrow> int \<Rightarrow> response) \<Rightarrow> string \<Rightarrow> string option" where
  "fetched net url =
     (case download_md_file net url of
        Raised \<Rightarrow> None
      | Returned (u, content) \<Rightarrow> if truthy content then content else None)"

section \<open>Properties of the fetcher\<close>

declare fetch_loop.simps [simp del]



lemma fetch_loop_not_found:
  "attempt < retries + 1 \<Longrightarrow> not_found (resp attempt) \<Longrightarrow>
     fetch_loop resp retries attempt tr = (Returned None, tr @ [Get attempt])"
  by (subst fetch_loop.simps, cases "resp attempt") simp_all

lemma fetch_loop_success:
  "attempt < retries + 1 \<Longrightarrow> resp attempt = Status 200 body \<Longrightarrow>
     fetch_loop resp retries attempt tr = (Returned (Some body), tr @ [Get attempt])"
  by (subst fetch_loop.simps) simp








text \<open>
  Claim C2. For every \<open>retries \<ge> 0\<close>, when the URL always answers with status 404,
  \<^verbatim>\<open>fetch_url\<close> makes exactly one request, returns \<^verbatim>\<open>None\<close> at once and never sleeps.
\<close>

theorem fetch_url_not_found:
  assumes "0 \<le> retries" and "\<forall>a. not_found (resp a)"
  shows "fetch_url resp retries = (Returned None, [Get 0])"
  using assms fetch_loop_not_found [of 0 retries resp "[]"] by (simp add: fetch_url_def)

theorem fetch_url_not_found_witness:
  "(0::int) \<le> 3 \<and> (\<forall>a. not_found ((\<lambda>_. Status 404 ''gone'') a)) \<and>
   fetch_url (\<lambda>_. Status 404 ''gone'') 3 = (Returned None, [Get 0])"
  using fetch_url_not_found [of 3 "\<lambda>_. Status 404 ''gone''"] by simp

section \<open>Properties of the link extractor\<close>

lemma match_target_suffix:
  "match_target s = Some (t, rest) \<Longrightarrow> suffix ''.md'' t"
proof (induction s arbitrary: t rest)
  case Nil
  then show ?case by simp
next
  case (Cons c cs)
  show ?case
  proof (cases "prefix ''.md)'' (c # cs)")
    case True
    with Cons.prems show ?thesis by simp
  next
    case False
    with Cons.prems obtain t' where "match_target cs = Some (t', rest)" and "t = c # t'"
      by (auto split: if_splits)
    with Cons.IH show ?thesis by (auto simp: suffix_Cons)
  qed
qed

lemma match_label_suffix:
  "match_label s = Some (t, rest) \<Longrightarrow> suffix ''.md'' t"
proof (induction s arbitrary: t rest)
  case Nil
  then show ?case by simp
next
  case (Cons c cs)
  show ?case
  proof (cases "if prefix '']('' (c # cs) then match_target (drop 1 cs) else None")
    case None
    with Cons show ?thesis by (auto split: if_splits)
  next
    case (Some m)
    with Cons.prems have "match_target (drop 1 cs) = Some (t, rest)"
      by (auto split: if_splits)
    then show ?thesis by (rule match_target_suffix)
  qed
qed

lemma findall_suffix: "t \<in> set (findall s) \<Longrightarrow> suffix ''.md'' t"
proof (induction s rule: findall.induct)
  case 1
  then show ?case by simp
next
  case (2 c cs)
  show ?case
  proof (cases "match_at (c # cs)")
    case None
    with 2 show ?thesis by simp
  next
    case (Some m)
    obtain t' rest where m: "m = (t', rest)" by (cases m)
    have "suffix ''.md'' t'"
      using Some m match_label_suffix [of cs t' rest] by (auto split: if_splits)
    with 2 Some m show ?thesis by auto
  qed
qed

declare findall.simps(2) [simp del]

text \<open>
  Claim C5. For every text, the set \<^verbatim>\<open>extract_md_links\<close> returns is the set of the
  normalised targets captured by the pattern: a captured target that starts with
  \<^verbatim>\<open>http://\<close> or \<^verbatim>\<open>https://\<close> is taken unchanged, any other one is joined to
  \<^verbatim>\<open>BASE_URL\<close>; every captured target ends in \<^verbatim>\<open>.md\<close>. The result is a set, so a target
  captured several times is one element of it.
\<close>

theorem extract_md_links_targets:
  "extract_md_links urljoin (Some text) =
     (\<lambda>t. if prefix ''http://'' t \<or> prefix ''https://'' t then t else urljoin BASE_URL t) `
       set (findall text) \<and>
   (\<forall>t \<in> set (findall text). suffix ''.md'' t)"
proof (cases "text = []")
  case True
  then show ?thesis by (simp add: extract_md_links_def)
next
  case False
  then have "extract_md_links urljoin (Some text) = normalise urljoin ` set (findall text)"
    by (simp add: extract_md_links_def)
  moreover have "normalise urljoin =
      (\<lambda>t. if prefix ''http://'' t \<or> prefix ''https://'' t then t else urljoin BASE_URL t)"
    by (rule ext) (simp add: normalise_def is_absolute_def)
  ultimately show ?thesis by (simp add: findall_suffix)
qed

theorem extract_md_links_targets_witness:
  "extract_md_links (\<lambda>base rel. base @ rel)
     (Some ''[A](a.md) and [B](https://x/b.md) and [A2](a.md)'')
   = {''https://docs.p2p.org/a.md'', ''https://x/b.md''}"
proof -
  have found: "findall ''[A](a.md) and [B](https://x/b.md) and [A2](a.md)''
      = [''a.md'', ''https://x/b.md'', ''a.md'']"
    by code_simp
  show ?thesis
    using extract_md_links_targets
      [of "\<lambda>base rel. base @ rel" "''[A](a.md) and [B](https://x/b.md) and [A2](a.md)''"]
    unfolding found by (simp add: BASE_URL_def)
qed

text \<open>
  Claim C6. \<^verbatim>\<open>extract_md_links\<close> returns the empty set for the empty string and for
  \<^verbatim>\<open>None\<close>.
\<close>

theorem extract_md_links_empty:
  "extract_md_links urljoin (Some []) = {} \<and> extract_md_links urljoin None = {}"
  by (simp add: extract_md_links_def)


section \<open>Properties of the download orchestrator\<close>

lemma fetch_url_first_200:
  "resp 0 = Status 200 body \<Longrightarrow> fetch_url resp MAX_RETRIES = (Returned (Some body), [Get 0])"
  using fetch_loop_success [of 0 MAX_RETRIES resp body "[]"]
  by (simp add: fetch_url_def MAX_RETRIES_def)

lemma fetch_url_first_404:
  "resp 0 = Status 404 body \<Longrightarrow> fetch_url resp MAX_RETRIES = (Returned None, [Get 0])"
  using fetch_loop_not_found [of 0 MAX_RETRIES resp "[]"]
  by (simp add: fetch_url_def MAX_RETRIES_def)

lemma fetch_url_first_other:
  "resp 0 = OtherException \<Longrightarrow> fetch_url resp MAX_RETRIES = (Raised, [Get 0])"
  by (simp add: fetch_url_def MAX_RETRIES_def fetch_loop.simps [of resp 3 0])

lemma download_md_file_cases:
  "download_md_file net url =
     (case fst (fetch_url (net url) MAX_RETRIES) of
        Raised \<Rightarrow> Raised
      | Returned content \<Rightarrow> Returned (url, if truthy content then content else None))"
  by (simp add: download_md_file_def split: outcome.splits)

lemma handle_completed_fetched:
  "handle_completed net wfail d url =
     (case fetched net url of
        None \<Rightarrow> d\<lparr>failed_urls := failed_urls d @ [url]\<rparr>
      | Some text \<Rightarrow>
          if wfail (filepath_of url)
          then d\<lparr>results := results d @ [(url, text)], failed_urls := failed_urls d @ [url]\<rparr>
          else d\<lparr>results := results d @ [(url, text)],
                 files := files d @ [(filepath_of url, text)]\<rparr>)"
  by (cases "fst (fetch_url (net url) MAX_RETRIES)")
     (auto simp: handle_completed_def fetched_def download_md_file_cases filepath_of_def
        truthy_def Let_def split: option.splits)

lemma foldl_handle_completed:
  "foldl (handle_completed net wfail) d order =
     \<lparr>results = results d @
        map (\<lambda>u. (u, the (fetched net u))) (filter (\<lambda>u. fetched net u \<noteq> None) order),
      failed_urls = failed_urls d @
        filter (\<lambda>u. if fetched net u = None then True else wfail (filepath_of u)) order,
      files = files d @
        map (\<lambda>u. (filepath_of u, the (fetched net u)))
          (filter (\<lambda>u. fetched net u \<noteq> None \<and> \<not> wfail (filepath_of u)) order)\<rparr>"
proof (induction order arbitrary: d)
  case Nil
  then show ?case by simp
next
  case (Cons u us)
  have step: "foldl (handle_completed net wfail) d (u # us) =
      foldl (handle_completed net wfail) (handle_completed net wfail d u) us"
    by simp
  show ?case
    unfolding step Cons.IH [of "handle_completed net wfail d u"]
    by (cases "fetched net u") (simp_all add: handle_completed_fetched [of net wfail d u])
qed

lemma download_all_eq:
  "download_all net wfail order =
     \<lparr>results = map (\<lambda>u. (u, the (fetched net u))) (filter (\<lambda>u. fetched net u \<noteq> None) order),
      failed_urls = filter (\<lambda>u. if fetched net u = None then True else wfail (filepath_of u)) order,
      files = map (\<lambda>u. (filepath_of u, the (fetched net u)))
          (filter (\<lambda>u. fetched net u \<noteq> None \<and> \<not> wfail (filepath_of u)) order)\<rparr>"
  by (simp add: download_all_def foldl_handle_completed)

lemma download_all_partition:
  assumes "distinct order" and "\<forall>u \<in> set order. \<not> wfail (filepath_of u)"
  shows "distinct (map fst (results (download_all net wfail order)) @
                   failed_urls (download_all net wfail order)) \<and>
         set (map fst (results (download_all net wfail order)) @
                   failed_urls (download_all net wfail order)) = set order"
proof -
  have f: "filter (\<lambda>u. if fetched net u = None then True else wfail (filepath_of u)) order
         = filter (\<lambda>u. fetched net u = None) order"
    using assms(2) by (intro filter_cong) auto
  show ?thesis
    using assms(1) by (auto simp: download_all_eq f comp_def)
qed

text \<open>
  Claim C1 says that after the download loop every URL is in exactly one of \<^verbatim>\<open>results\<close>
  and \<^verbatim>\<open>failed_urls\<close>, also when writing the individual file fails. The loop appends
  to \<^verbatim>\<open>results\<close> before it writes the file, and the handler of the write error appends
  to \<^verbatim>\<open>failed_urls\<close>: with one URL that is fetched with the text \<^verbatim>\<open>x\<close> and whose file
  \<^verbatim>\<open>markdown_files/a.md\<close> cannot be written, the URL is in both lists.
\<close>

theorem download_all_write_error:
  "results (download_all (\<lambda>url a. Status 200 ''x'') (\<lambda>p. p = ''markdown_files/a.md'')
      [''https://docs.p2p.org/a.md'']) = [(''https://docs.p2p.org/a.md'', ''x'')] \<and>
   failed_urls (download_all (\<lambda>url a. Status 200 ''x'') (\<lambda>p. p = ''markdown_files/a.md'')
      [''https://docs.p2p.org/a.md'']) = [''https://docs.p2p.org/a.md'']"
  by code_simp

section \<open>Properties of the run driver\<close>


lemma fetched_none:
  "fst (fetch_url (net url) MAX_RETRIES) = Returned None \<Longrightarrow> fetched net url = None"
  by (simp add: fetched_def download_md_file_cases truthy_def)

lemma main_no_seed:
  "fst (fetch_url (net INITIAL_URL) MAX_RETRIES) = Returned seed \<Longrightarrow> \<not> truthy seed \<Longrightarrow>
     main net urljoin wfail completed now =
       early_exit AbortedNoSeed (Some (ERROR, ''Failed to fetch the main file. Exiting.''))"
  by (simp add: main_def)

lemma main_no_links:
  "fst (fetch_url (net INITIAL_URL) MAX_RETRIES) = Returned seed \<Longrightarrow> truthy seed \<Longrightarrow>
     extract_md_links urljoin seed = {} \<Longrightarrow>
     main net urljoin wfail completed now =
       early_exit AbortedNoLinks (Some (WARNING, ''No markdown links found. Exiting.''))"
  by (simp add: main_def)



text \<open>
  Claim C8. When the seed fetch returns \<^verbatim>\<open>None\<close>, or the seed has no link to extract,
  \<^verbatim>\<open>main\<close> logs a report and returns before any download: nothing is submitted to the
  executor, no file is written (no individual file, no aggregate, no manifest) and
  nothing is collected. The report is logged with \<^verbatim>\<open>logger.error\<close> when the seed is
  missing or empty, and with \<^verbatim>\<open>logger.warning\<close> when it has no link.
\<close>

theorem main_aborts_before_downloads:
  assumes "fst (fetch_url (net INITIAL_URL) MAX_RETRIES) = Returned seed"
    and "seed = None \<or> extract_md_links urljoin seed = {}"
  shows "submitted (main net urljoin wfail completed now) = {} \<and>
         files (main net urljoin wfail completed now) = [] \<and>
         results (main net urljoin wfail completed now) = [] \<and>
         failed_urls (main net urljoin wfail completed now) = [] \<and>
         (state (main net urljoin wfail completed now),
          exit_report (main net urljoin wfail completed now)) =
           (if truthy seed
            then (AbortedNoLinks, Some (WARNING, ''No markdown links found. Exiting.''))
            else (AbortedNoSeed, Some (ERROR, ''Failed to fetch the main file. Exiting.'')))"
proof (cases "truthy seed")
  case True
  then have "seed \<noteq> None" by (auto simp: truthy_def split: option.splits)
  with assms(2) have "extract_md_links urljoin seed = {}" by simp
  with main_no_links [of net seed urljoin wfail completed now] assms(1) True show ?thesis
    by (simp add: early_exit_def)
next
  case False
  with main_no_seed [of net seed urljoin wfail completed now] assms(1) show ?thesis
    by (simp add: early_exit_def)
qed

theorem main_aborts_before_downloads_witness:
  "files (main (\<lambda>u a. Status 404 []) (\<lambda>b r. b @ r) (\<lambda>p. False) (\<lambda>S. []) ''now'') = [] \<and>
   submitted (main (\<lambda>u a. Status 404 []) (\<lambda>b r. b @ r) (\<lambda>p. False) (\<lambda>S. []) ''now'') = {} \<and>
   exit_report (main (\<lambda>u a. Status 404 []) (\<lambda>b r. b @ r) (\<lambda>p. False) (\<lambda>S. []) ''now'')
     = Some (ERROR, ''Failed to fetch the main file. Exiting.'') \<and>
   files (main (\<lambda>u a. Status 200 ''no links here'') (\<lambda>b r. b @ r) (\<lambda>p. False) (\<lambda>S. []) ''now'') = [] \<and>
   submitted (main (\<lambda>u a. Status 200 ''no links here'') (\<lambda>b r. b @ r) (\<lambda>p. False) (\<lambda>S. []) ''now'') = {} \<and>
   exit_report (main (\<lambda>u a. Status 200 ''no links here'') (\<lambda>b r. b @ r) (\<lambda>p. False) (\<lambda>S. []) ''now'')
     = Some (WARNING, ''No markdown links found. Exiting.'')"
proof -
  have a: "fst (fetch_url (\<lambda>a. Status 404 []) MAX_RETRIES) = Returned None"
    by (simp add: fetch_url_first_404 [of _ "[]"])
  have b: "fst (fetch_url (\<lambda>a. Status 200 ''no links here'') MAX_RETRIES)
             = Returned (Some ''no links here'')"
    by (simp add: fetch_url_first_200)
  have c: "extract_md_links (\<lambda>b r. b @ r) (Some ''no links here'') = {}"
    by code_simp
  show ?thesis
    using main_aborts_before_downloads
        [of "\<lambda>u a. Status 404 []" None "\<lambda>b r. b @ r" "\<lambda>p. False" "\<lambda>S. []" "''now''"]
      main_aborts_before_downloads
        [of "\<lambda>u a. Status 200 ''no links here''" "Some ''no links here''" "\<lambda>b r. b @ r"
            "\<lambda>p. False" "\<lambda>S. []" "''now''"]
      a b c
    by (simp add: truthy_def)
qed









section \<open>Properties of the aggregator\<close>

lemma title_foo_bar:
  "title_str (replace_str ''-'' '' '' (replace_str ''.md'' [] ''foo-bar.md'')) = ''Foo Bar''"
  by code_simp

lemma anchor_foo_bar: "anchor_of ''Foo Bar'' = ''foo-bar''"
  by code_simp

lemma concat_map_nth:
  "i < length xs \<Longrightarrow>
     concat (map f xs) = concat (map f (take i xs)) @ f (xs ! i) @ concat (map f (drop (Suc i) xs))"
  using id_take_nth_drop [of i xs] 
  by (metis concat.simps(2) concat_append list.simps(9) map_append)

lemma enumerate_nth_split:
  "i < length xs \<Longrightarrow>
     enumerate n xs = enumerate n (take i xs) @ (n + i, xs ! i) # enumerate (Suc (n + i)) (drop (Suc i) xs)"
proof -
  assume i: "i < length xs"
  have "enumerate n xs = enumerate n (take i xs @ xs ! i # drop (Suc i) xs)"
    using id_take_nth_drop [OF i] by simp
  also have "\<dots> = enumerate n (take i xs) @ enumerate (n + i) (xs ! i # drop (Suc i) xs)"
    using i by (simp add: enumerate_append_eq)
  finally show ?thesis by simp
qed

text \<open>
  Claim C7. For a record of \<^verbatim>\<open>results\<close> whose URL has the last path segment
  \<^verbatim>\<open>foo-bar.md\<close> and whose content is \<^verbatim>\<open>hello\<close>, the title is \<^verbatim>\<open>Foo Bar\<close> and the
  anchor \<^verbatim>\<open>foo-bar\<close>; the aggregate contains the table-of-contents line of the record
  with the link \<^verbatim>\<open>[Foo Bar](#foo-bar)\<close>, and the section of the record: the header
  \<^verbatim>\<open>## Foo Bar\<close>, the source line and then \<^verbatim>\<open>hello\<close>, unchanged, before the separator.
\<close>

theorem aggregate_foo_bar:
  assumes "basename url = ''foo-bar.md''" and "i < length rs" and "rs ! i = (url, ''hello'')"
  shows "title_of url = ''Foo Bar'' \<and> anchor_of (title_of url) = ''foo-bar'' \<and>
    (\<exists>pre post. aggregate rs now =
        pre @ str_nat (i + 1) @ ''. [Foo Bar](#foo-bar)\<newline>'' @ post) \<and>
    (\<exists>pre post. aggregate rs now =
        pre @ ''## Foo Bar\<newline>\<newline>'' @
              ''*Source: ['' @ url @ '']('' @ url @ '')*\<newline>\<newline>'' @
              ''hello'' @
              ''\<newline>\<newline>---\<newline>\<newline>'' @ post)"
proof -
  have title: "title_of url = ''Foo Bar''"
    unfolding title_of_def assms(1) by (rule title_foo_bar)
  have anchor: "anchor_of (title_of url) = ''foo-bar''"
    unfolding title by (rule anchor_foo_bar)
  have toc: "concat (map toc_line (enumerate 1 rs)) =
      concat (map toc_line (enumerate 1 (take i rs))) @
      (str_nat (i + 1) @ ''. [Foo Bar](#foo-bar)\<newline>'') @
      concat (map toc_line (enumerate (Suc (1 + i)) (drop (Suc i) rs)))"
    unfolding enumerate_nth_split [OF assms(2), of 1] assms(3)
    by (simp add: toc_line_def title anchor_foo_bar del: str_nat.simps)
  have sec: "concat (map section_of rs) =
      concat (map section_of (take i rs)) @
      (''## Foo Bar\<newline>\<newline>'' @
         ''*Source: ['' @ url @ '']('' @ url @ '')*\<newline>\<newline>'' @
         ''hello'' @ ''\<newline>\<newline>---\<newline>\<newline>'') @
      concat (map section_of (drop (Suc i) rs))"
    unfolding concat_map_nth [OF assms(2), of section_of] assms(3)
    by (simp add: section_of_def title)
  have "\<exists>pre post. aggregate rs now =
        pre @ str_nat (i + 1) @ ''. [Foo Bar](#foo-bar)\<newline>'' @ post"
    unfolding aggregate_def toc
    by (metis append.assoc)
  moreover have "\<exists>pre post. aggregate rs now =
        pre @ ''## Foo Bar\<newline>\<newline>'' @
              ''*Source: ['' @ url @ '']('' @ url @ '')*\<newline>\<newline>'' @
              ''hello'' @
              ''\<newline>\<newline>---\<newline>\<newline>'' @ post"
    unfolding aggregate_def sec
    by (metis append.assoc)
  ultimately show ?thesis using title anchor by blast
qed


theorem aggregate_foo_bar_witness:
  "basename ''https://docs.p2p.org/foo-bar.md'' = ''foo-bar.md'' \<and>
   title_of ''https://docs.p2p.org/foo-bar.md'' = ''Foo Bar'' \<and>
   anchor_of (title_of ''https://docs.p2p.org/foo-bar.md'') = ''foo-bar'' \<and>
   (\<exists>pre post. aggregate [(''https://docs.p2p.org/foo-bar.md'', ''hello'')] ''2024-01-01 00:00:00'' =
      pre @ ''1. [Foo Bar](#foo-bar)\<newline>'' @ post) \<and>
   (\<exists>pre post. aggregate [(''https://docs.p2p.org/foo-bar.md'', ''hello'')] ''2024-01-01 00:00:00'' =
      pre @ ''## Foo Bar\<newline>\<newline>*Source: [https://docs.p2p.org/foo-bar.md](https://docs.p2p.org/foo-bar.md)*\<newline>\<newline>hello\<newline>\<newline>---\<newline>\<newline>'' @ post)"
proof -
  have b: "basename ''https://docs.p2p.org/foo-bar.md'' = ''foo-bar.md''"
    by code_simp
  have n: "str_nat (0 + 1) = ''1''"
    by code_simp
  show ?thesis
    using aggregate_foo_bar [of "''https://docs.p2p.org/foo-bar.md''" 0
        "[(''https://docs.p2p.org/foo-bar.md'', ''hello'')]" "''2024-01-01 00:00:00''"] b
    unfolding n by (simp add: anchor_foo_bar)
qed

end
